theory Spec2Isabelle
  imports Main "HOL-Library.Word"
begin

section \<open>Python strings\<close>

text \<open>
  A Python \<open>str\<close> is modelled as a \<open>string\<close>, each character read as the code point
  of the same number (U+0000 to U+00FF). The three string methods the configuration
  module calls are \<open>str.split(",")\<close>, \<open>str.strip()\<close> and \<open>str.lower()\<close>.
\<close>

text \<open>\<open>str.isspace\<close> on one character: the white space code points below U+0100.\<close>

definition py_isspace :: "char \<Rightarrow> bool" where
  "py_isspace c = (c \<in> {CHR 0x09, CHR 0x0A, CHR 0x0B, CHR 0x0C, CHR 0x0D,
                          CHR 0x1C, CHR 0x1D, CHR 0x1E, CHR 0x1F, CHR 0x20,
                          CHR 0x85, CHR 0xA0})"

text \<open>\<open>s.strip()\<close>: white space removed from both ends.\<close>

definition py_strip :: "string \<Rightarrow> string" where
  "py_strip s = rev (dropWhile py_isspace (rev (dropWhile py_isspace s)))"

text \<open>
  \<open>s.split(sep)\<close> for a one-character separator: a scan from the left that closes the
  current piece at each separator; \<open>acc\<close> holds the current piece, reversed. The empty
  string splits into one empty piece.
\<close>

fun split_scan :: "char \<Rightarrow> string \<Rightarrow> string \<Rightarrow> string list" where
  "split_scan sep acc [] = [rev acc]"
| "split_scan sep acc (c # cs) =
     (if c = sep then rev acc # split_scan sep [] cs else split_scan sep (c # acc) cs)"

definition py_split :: "string \<Rightarrow> char \<Rightarrow> string list" where
  "py_split s sep = split_scan sep [] s"

text \<open>\<open>sep.join(ps)\<close>, the inverse of \<open>split\<close>; it is used in statements only.\<close>

fun py_join :: "char \<Rightarrow> string list \<Rightarrow> string" where
  "py_join sep [] = []"
| "py_join sep [p] = p"
| "py_join sep (p # q # ps) = p @ sep # py_join sep (q # ps)"

text \<open>
  \<open>str.lower\<close> on one character: A to Z, and the upper-case letters of U+00C0 to
  U+00DE (all of them but the multiplication sign U+00D7), move up by 32.
\<close>

definition lower_char :: "char \<Rightarrow> char" where
  "lower_char c =
     (let n = (of_char c :: nat)
      in if (65 \<le> n \<and> n \<le> 90) \<or> (192 \<le> n \<and> n \<le> 222 \<and> n \<noteq> 215)
         then char_of (n + 32) else c)"

definition py_lower :: "string \<Rightarrow> string" where
  "py_lower s = map lower_char s"

section \<open>The process environment\<close>

type_synonym environ = "string \<rightharpoonup> string"

text \<open>\<open>os.getenv(key)\<close> and \<open>os.getenv(key, default)\<close>.\<close>

definition getenv :: "environ \<Rightarrow> string \<Rightarrow> string option" where
  "getenv env key = env key"

definition getenv_default :: "environ \<Rightarrow> string \<Rightarrow> string \<Rightarrow> string" where
  "getenv_default env key dflt = (case env key of None \<Rightarrow> dflt | Some v \<Rightarrow> v)"

section \<open>Errors and library operations\<close>

text \<open>
  Every \<open>raise\<close> is a value. \<open>RuntimeError\<close> carries its message; \<open>ValueError\<close> is what
  \<open>int\<close> raises; \<open>BinasciiError\<close> is what \<open>base64.b64decode\<close> raises; \<open>KeySizeError\<close>
  stands for the exception of PyNaCl with which a key constructor refuses a content of
  the wrong length; \<open>LibraryError\<close> stands for an exception class of another library,
  named by the string.
  \<open>NoObject\<close> is not a Python exception: it marks a method call through an address
  that holds no object, which no Python program can make.
\<close>

datatype error =
    RuntimeError string
  | ValueError
  | BinasciiError
  | KeySizeError
  | LibraryError string
  | NoObject

text \<open>A connection-pool handle: the number of the pool (its identity) and its URL.\<close>

datatype Engine = Engine (pool_id: nat) (url: string)

text \<open>A \<open>pathlib.Path\<close>, holding the string it was made from.\<close>

datatype Path = Path string

text \<open>
  The operations of Python and of its libraries that the module calls and that are not
  part of the repository are parameters of the model:
  \<^item> \<open>int_of_str s\<close> is \<open>int(s)\<close>, \<open>None\<close> where it raises \<open>ValueError\<close>;
  \<^item> \<open>engine_error url\<close> is the exception that
    \<open>create_engine(url, pool_pre_ping=True, future=True)\<close> raises on \<open>url\<close>, \<open>None\<close>
    where it constructs a pool;
  \<^item> \<open>expanduser p\<close> is \<open>p.expanduser()\<close>.
\<close>

record pylib =
  int_of_str :: "string \<Rightarrow> int option"
  engine_error :: "string \<Rightarrow> error option"
  expanduser :: "Path \<Rightarrow> error + Path"

section \<open>config.py\<close>

subsection \<open>Top-level constants\<close>

record globals =
  TRUST_PROXY :: bool
  MAX_LOG_BYTES :: int
  REDACT_KEYS :: "string set"
  LOG_DIR :: string
  APP_NAME :: string
  RFC_ENTERPRISE_ID :: int
  ROTATE_UTC :: bool
  GZIP_AFTER_DAYS :: int
  KEEP_DAYS :: int
  PUBLIC_KEY_B64_PATH :: string
  PRIVATE_KEY_B64_PATH :: "string option"

text \<open>The set comprehension of lines 15 to 22.\<close>

definition redact_keys :: "environ \<Rightarrow> string set" where
  "redact_keys env =
     set [py_lower (py_strip k).
            k \<leftarrow> py_split (getenv_default env ''REDACT_KEYS''
                   ''password,new_password,current_password,token,authorization,secret'')
                 CHR '','',
            py_strip k \<noteq> []]"

subsection \<open>App config holder\<close>

text \<open>The dataclass; \<open>engine_slot\<close> is the field \<open>_engine\<close>.\<close>

record Config =
  pg_dsn_app :: string
  cors_allowed_origins :: "string list"
  default_query_interval :: int
  engine_slot :: "Engine option"

subsection \<open>The state of the process\<close>

text \<open>
  \<open>Config\<close> objects live in a heap and are named by their address, the index in
  \<open>heap\<close>; two references are identical when the addresses are equal. \<open>cfg_slot\<close> is the
  module global \<open>_cfg\<close>. \<open>pools\<close> counts the pools that \<open>create_engine\<close> has
  constructed, and \<open>env_reads\<close> logs the names that \<open>os.getenv\<close> was asked for.
\<close>

record world =
  environ :: environ
  globals :: globals
  cfg_slot :: "nat option"
  heap :: "Config list"
  pools :: nat
  env_reads :: "string list"

text \<open>
  Importing the module evaluates lines 13 to 31 and line 54, in this order; a
  malformed integer stops the import with \<open>ValueError\<close>.
\<close>

definition import_module :: "pylib \<Rightarrow> environ \<Rightarrow> error + world" where
  "import_module lib env =
     (case int_of_str lib (getenv_default env ''MAX_LOG_BYTES'' ''4096'') of
        None \<Rightarrow> Inl ValueError
      | Some max_log_bytes \<Rightarrow>
     (case int_of_str lib (getenv_default env ''RFC_ENTERPRISE_ID'' ''32473'') of
        None \<Rightarrow> Inl ValueError
      | Some rfc_enterprise_id \<Rightarrow>
     (case int_of_str lib (getenv_default env ''GZIP_AFTER_DAYS'' ''7'') of
        None \<Rightarrow> Inl ValueError
      | Some gzip_after_days \<Rightarrow>
     (case int_of_str lib (getenv_default env ''KEEP_DAYS'' ''200'') of
        None \<Rightarrow> Inl ValueError
      | Some keep_days \<Rightarrow>
          Inr \<lparr>environ = env,
               globals =
                 \<lparr>TRUST_PROXY = (getenv_default env ''TRUST_PROXY'' ''1'' = ''1''),
                  MAX_LOG_BYTES = max_log_bytes,
                  REDACT_KEYS = redact_keys env,
                  LOG_DIR = getenv_default env ''LOG_DIR'' ''./logs'',
                  APP_NAME = getenv_default env ''APP_NAME'' ''pgsched-api'',
                  RFC_ENTERPRISE_ID = rfc_enterprise_id,
                  ROTATE_UTC = (getenv_default env ''LOG_ROTATE_UTC'' ''1'' = ''1''),
                  GZIP_AFTER_DAYS = gzip_after_days,
                  KEEP_DAYS = keep_days,
                  PUBLIC_KEY_B64_PATH =
                    getenv_default env ''PUBLIC_KEY_B64_PATH'' ''./public_key.base64'',
                  PRIVATE_KEY_B64_PATH = getenv env ''APP_PRIVATE_KEY_B64_PATH''\<rparr>,
               cfg_slot = None,
               heap = [],
               pools = 0,
               env_reads =
                 [''TRUST_PROXY'', ''MAX_LOG_BYTES'', ''REDACT_KEYS'', ''LOG_DIR'',
                  ''APP_NAME'', ''RFC_ENTERPRISE_ID'', ''LOG_ROTATE_UTC'',
                  ''GZIP_AFTER_DAYS'', ''KEEP_DAYS'', ''PUBLIC_KEY_B64_PATH'',
                  ''APP_PRIVATE_KEY_B64_PATH'']\<rparr>))))"

subsection \<open>The methods of Config\<close>

text \<open>
  \<open>create_engine\<close> of SQLAlchemy: it raises what \<open>engine_error\<close> says, or constructs
  the next pool.
\<close>

definition create_engine :: "pylib \<Rightarrow> string \<Rightarrow> world \<Rightarrow> (error + Engine) \<times> world" where
  "create_engine lib dsn w =
     (case engine_error lib dsn of
        Some e \<Rightarrow> (Inl e, w)
      | None \<Rightarrow> (Inr (Engine (pools w) dsn), w\<lparr>pools := Suc (pools w)\<rparr>))"

text \<open>\<open>Config.engine\<close>, lines 41 to 46; \<open>self\<close> is the address of the object.\<close>

definition engine :: "pylib \<Rightarrow> nat \<Rightarrow> world \<Rightarrow> (error + Engine) \<times> world" where
  "engine lib self w =
     (if self < length (heap w) then
        (case engine_slot (heap w ! self) of
           None \<Rightarrow>
             if pg_dsn_app (heap w ! self) = [] then
               (Inl (RuntimeError ''PG_DSN_APP is required''), w)
             else
               (case create_engine lib (pg_dsn_app (heap w ! self)) w of
                  (Inl e, w') \<Rightarrow> (Inl e, w')
                | (Inr h, w') \<Rightarrow>
                    (Inr h,
                     w'\<lparr>heap := (heap w')[self := (heap w' ! self)\<lparr>engine_slot := Some h\<rparr>]\<rparr>))
         | Some h \<Rightarrow> (Inr h, w))
      else (Inl NoObject, w))"


subsection \<open>Global cfg instance factory\<close>

text \<open>
  \<open>load_config\<close>, lines 56 to 63. The three \<open>os.getenv\<close> calls are made before \<open>int\<close>
  can raise, so they are logged in both outcomes; the object is allocated and \<open>_cfg\<close>
  assigned only when \<open>int\<close> returns.
\<close>

definition load_config :: "pylib \<Rightarrow> world \<Rightarrow> (error + unit) \<times> world" where
  "load_config lib w =
     (if cfg_slot w \<noteq> None then (Inr (), w)
      else
        let pg = py_strip (getenv_default (environ w) ''PG_DSN_APP'' '''');
            cors = [py_strip x.
                      x \<leftarrow> py_split (getenv_default (environ w) ''CORS_ALLOWED_ORIGINS'' ''*'')
                           CHR '','',
                      py_strip x \<noteq> []];
            w1 = w\<lparr>env_reads := env_reads w @
                     [''PG_DSN_APP'', ''CORS_ALLOWED_ORIGINS'', ''DEFAULT_QUERY_INTERVAL'']\<rparr>
        in case int_of_str lib
                  (getenv_default (environ w) ''DEFAULT_QUERY_INTERVAL'' ''21600'') of
             None \<Rightarrow> (Inl ValueError, w1)
           | Some default_interval \<Rightarrow>
               (Inr (),
                w1\<lparr>heap := heap w1 @
                       [\<lparr>pg_dsn_app = pg, cors_allowed_origins = cors,
                         default_query_interval = default_interval, engine_slot = None\<rparr>],
                    cfg_slot := Some (length (heap w1))\<rparr>))"

text \<open>\<open>cfg\<close>, lines 65 to 68: it returns the value of \<open>_cfg\<close>, a reference or \<open>None\<close>.\<close>

definition cfg :: "pylib \<Rightarrow> world \<Rightarrow> (error + nat option) \<times> world" where
  "cfg lib w =
     (if cfg_slot w = None then
        (case load_config lib w of
           (Inl e, w') \<Rightarrow> (Inl e, w')
         | (Inr u, w') \<Rightarrow> (Inr (cfg_slot w'), w'))
      else (Inr (cfg_slot w), w))"

subsection \<open>Sequences of calls\<close>

text \<open>
  What the rest of the process can do with the module: call its two functions, call the
  two methods on an object, construct a \<open>Config\<close> of its own, and change the
  environment (\<open>os.environ[k] = v\<close>, \<open>del os.environ[k]\<close>). \<open>step\<close> gives the state after
  one call, whether it returned or raised, and \<open>run\<close> the state after a sequence.
\<close>

datatype call =
    Load_config
  | Cfg
  | Engine_of nat
  | Private_key_path_of nat
  | New_Config string "string list" int
  | Putenv string string
  | Unsetenv string

fun step :: "pylib \<Rightarrow> call \<Rightarrow> world \<Rightarrow> world" where
  "step lib Load_config w = snd (load_config lib w)"
| "step lib Cfg w = snd (cfg lib w)"
| "step lib (Engine_of a) w = snd (engine lib a w)"
| "step lib (Private_key_path_of a) w = w"
| "step lib (New_Config pg cors n) w =
     w\<lparr>heap := heap w @
          [\<lparr>pg_dsn_app = pg, cors_allowed_origins = cors,
            default_query_interval = n, engine_slot = None\<rparr>]\<rparr>"
| "step lib (Putenv k v) w = w\<lparr>environ := (environ w)(k \<mapsto> v)\<rparr>"
| "step lib (Unsetenv k) w = w\<lparr>environ := (environ w)(k := None)\<rparr>"

fun run :: "pylib \<Rightarrow> call list \<Rightarrow> world \<Rightarrow> world" where
  "run lib [] w = w"
| "run lib (c # cs) w = run lib cs (step lib c w)"

section \<open>crypto_utils_sodium.py\<close>













text \<open>
  \<open>sealedbox_encrypt\<close> and \<open>sealedbox_decrypt\<close>, lines 15 to 19, hand their arguments to
  \<open>SealedBox\<close> of PyNaCl and return what it returns. The cipher is the library's and
  is not modelled.
\<close>

section \<open>Concrete library operations for the examples\<close>

text \<open>
  The theorems about \<open>config.py\<close> hold for every \<open>pylib\<close>. To run the model on
  concrete inputs the parameters are given these values: an \<open>int\<close> that reads a run of
  ASCII digits, a \<open>create_engine\<close> that refuses nothing, and an \<open>expanduser\<close> that
  replaces a leading \<open>~/\<close> by the home directory \<open>/root\<close>.
\<close>

definition int_of_digits :: "string \<Rightarrow> int option" where
  "int_of_digits s =
     (if s \<noteq> [] \<and> list_all (\<lambda>c. 48 \<le> (of_char c :: nat) \<and> (of_char c :: nat) \<le> 57) s
      then Some (foldl (\<lambda>n c. 10 * n + int (of_char c - 48)) 0 s)
      else None)"

definition expanduser_root :: "Path \<Rightarrow> error + Path" where
  "expanduser_root p =
     (case p of
        Path s \<Rightarrow>
          if s = ''~'' then Inr (Path ''/root'')
          else if take 2 s = ''~/'' then Inr (Path (''/root'' @ drop 1 s))
          else if take 1 s = ''~'' then Inl (RuntimeError ''Could not determine home directory.'')
          else Inr (Path s))"

definition lib_ex :: pylib where
  "lib_ex = \<lparr>int_of_str = int_of_digits, engine_error = (\<lambda>u. None),
             expanduser = expanduser_root\<rparr>"

text \<open>The environment of the examples, and the process right after the import.\<close>

definition env_ex :: environ where
  "env_ex = map_of
     [(''CORS_ALLOWED_ORIGINS'', '' a , b ,,c ''),
      (''REDACT_KEYS'', ''Token, PASSWORD''),
      (''PG_DSN_APP'', ''   ''),
      (''TRUST_PROXY'', ''true''),
      (''APP_PRIVATE_KEY_B64_PATH'', ''~/keys/private_key.base64'')]"

definition world_ex :: world where
  "world_ex =
     \<lparr>environ = env_ex,
      globals =
        \<lparr>TRUST_PROXY = False, MAX_LOG_BYTES = 4096,
         REDACT_KEYS = {''token'', ''password''}, LOG_DIR = ''./logs'',
         APP_NAME = ''pgsched-api'', RFC_ENTERPRISE_ID = 32473, ROTATE_UTC = True,
         GZIP_AFTER_DAYS = 7, KEEP_DAYS = 200,
         PUBLIC_KEY_B64_PATH = ''./public_key.base64'',
         PRIVATE_KEY_B64_PATH = Some ''~/keys/private_key.base64''\<rparr>,
      cfg_slot = None, heap = [], pools = 0,
      env_reads =
        [''TRUST_PROXY'', ''MAX_LOG_BYTES'', ''REDACT_KEYS'', ''LOG_DIR'',
         ''APP_NAME'', ''RFC_ENTERPRISE_ID'', ''LOG_ROTATE_UTC'',
         ''GZIP_AFTER_DAYS'', ''KEEP_DAYS'', ''PUBLIC_KEY_B64_PATH'',
         ''APP_PRIVATE_KEY_B64_PATH'']\<rparr>"

text \<open>The example process after its first \<open>load_config()\<close>.\<close>

definition world_loaded_ex :: world where
  "world_loaded_ex = snd (load_config lib_ex world_ex)"








section \<open>Properties of the string operations\<close>

lemma split_scan_nonempty: "split_scan sep acc s \<noteq> []"
  by (induction s arbitrary: acc) auto

lemma py_join_Cons: "ps \<noteq> [] \<Longrightarrow> py_join sep (p # ps) = p @ sep # py_join sep ps"
  by (cases ps) auto

lemma split_scan_join: "py_join sep (split_scan sep acc s) = rev acc @ s"
  by (induction s arbitrary: acc) (auto simp: py_join_Cons split_scan_nonempty)

lemma split_scan_sep_free:
  "sep \<notin> set acc \<Longrightarrow> \<forall>p\<in>set (split_scan sep acc s). sep \<notin> set p"
proof (induction s arbitrary: acc)
  case Nil
  then show ?case by simp
next
  case (Cons c cs)
  have "\<forall>p\<in>set (split_scan sep [] cs). sep \<notin> set p"
    by (rule Cons.IH) simp
  moreover have "c \<noteq> sep \<Longrightarrow> \<forall>p\<in>set (split_scan sep (c # acc) cs). sep \<notin> set p"
    using Cons.prems by (intro Cons.IH) simp
  ultimately show ?case using Cons.prems by simp
qed

lemma split_scan_append:
  "sep \<notin> set p \<Longrightarrow> split_scan sep acc (p @ sep # s) = (rev acc @ p) # split_scan sep [] s"
  by (induction p arbitrary: acc) auto

lemma split_scan_last:
  "sep \<notin> set p \<Longrightarrow> split_scan sep acc p = [rev acc @ p]"
  by (induction p arbitrary: acc) auto

lemma split_of_join:
  "ps \<noteq> [] \<Longrightarrow> \<forall>p\<in>set ps. sep \<notin> set p \<Longrightarrow> split_scan sep [] (py_join sep ps) = ps"
proof (induction ps)
  case Nil
  then show ?case by simp
next
  case (Cons p ps)
  show ?case
  proof (cases ps)
    case Nil
    then show ?thesis using Cons.prems by (simp add: split_scan_last)
  next
    case (Cons q qs)
    then show ?thesis using Cons.prems Cons.IH
      by (simp add: split_scan_append)
  qed
qed

lemma py_split_iff:
  "py_split s sep = ps \<longleftrightarrow> ps \<noteq> [] \<and> py_join sep ps = s \<and> (\<forall>p\<in>set ps. sep \<notin> set p)"
  unfolding py_split_def
  using split_scan_nonempty [of sep "[]" s] split_scan_join [of sep "[]" s]
    split_scan_sep_free [of sep "[]" s] split_of_join [of ps sep]
  by auto

lemma all_space_dropWhile:
  "(\<forall>x\<in>set (dropWhile P xs). P x) \<longleftrightarrow> (\<forall>x\<in>set xs. P x)"
proof
  assume a: "\<forall>x\<in>set (dropWhile P xs). P x"
  have "set xs = set (takeWhile P xs) \<union> set (dropWhile P xs)"
    by (metis set_append takeWhile_dropWhile_id)
  then show "\<forall>x\<in>set xs. P x" using a by (auto dest: set_takeWhileD)
next
  assume "\<forall>x\<in>set xs. P x"
  then show "\<forall>x\<in>set (dropWhile P xs). P x" by (auto dest: set_dropWhileD)
qed

lemma py_strip_empty_iff: "py_strip s = [] \<longleftrightarrow> list_all py_isspace s"
  by (simp add: py_strip_def list_all_iff dropWhile_eq_Nil_conv all_space_dropWhile)

lemma py_strip_decomp:
  "s = takeWhile py_isspace s @ py_strip s @
       rev (takeWhile py_isspace (rev (dropWhile py_isspace s)))"
proof -
  let ?r = "rev (dropWhile py_isspace s)"
  have "rev ?r = rev (takeWhile py_isspace ?r @ dropWhile py_isspace ?r)"
    by (simp only: takeWhile_dropWhile_id)
  then have "dropWhile py_isspace s = py_strip s @ rev (takeWhile py_isspace ?r)"
    by (simp only: rev_append rev_rev_ident py_strip_def)
  then show ?thesis
    by (metis takeWhile_dropWhile_id)
qed

lemma py_strip_hd: "py_strip s \<noteq> [] \<Longrightarrow> \<not> py_isspace (hd (py_strip s))"
proof -
  assume ne: "py_strip s \<noteq> []"
  let ?d = "dropWhile py_isspace s"
  have "?d = py_strip s @ rev (takeWhile py_isspace (rev ?d))"
    using py_strip_decomp [of s] by (metis same_append_eq takeWhile_dropWhile_id)
  then have "hd ?d = hd (py_strip s)" using ne by (metis hd_append2)
  moreover have "?d \<noteq> []"
  proof
    assume "?d = []"
    then have "py_strip s = []" by (metis py_strip_def dropWhile.simps(1) rev.simps(1))
    then show False using ne by simp
  qed
  ultimately show ?thesis by (metis hd_dropWhile)
qed

lemma py_strip_last: "py_strip s \<noteq> [] \<Longrightarrow> \<not> py_isspace (last (py_strip s))"
proof -
  assume ne: "py_strip s \<noteq> []"
  let ?r = "dropWhile py_isspace (rev (dropWhile py_isspace s))"
  have "?r \<noteq> []" using ne by (simp add: py_strip_def)
  then have "\<not> py_isspace (hd ?r)" by (rule hd_dropWhile)
  moreover have "last (py_strip s) = hd ?r" using \<open>?r \<noteq> []\<close> by (simp add: py_strip_def last_rev)
  ultimately show ?thesis by simp
qed

section \<open>The import and the example process\<close>

lemma import_module_fields:
  assumes "import_module lib env = Inr w"
  shows "TRUST_PROXY (globals w) = (getenv_default env ''TRUST_PROXY'' ''1'' = ''1'')"
    and "ROTATE_UTC (globals w) = (getenv_default env ''LOG_ROTATE_UTC'' ''1'' = ''1'')"
    and "REDACT_KEYS (globals w) = redact_keys env"
    and "PRIVATE_KEY_B64_PATH (globals w) = getenv env ''APP_PRIVATE_KEY_B64_PATH''"
    and "cfg_slot w = None" and "heap w = []" and "pools w = 0" and "environ w = env"
proof -
  obtain a b c d where w: "w = \<lparr>environ = env,
               globals =
                 \<lparr>TRUST_PROXY = (getenv_default env ''TRUST_PROXY'' ''1'' = ''1''),
                  MAX_LOG_BYTES = a,
                  REDACT_KEYS = redact_keys env,
                  LOG_DIR = getenv_default env ''LOG_DIR'' ''./logs'',
                  APP_NAME = getenv_default env ''APP_NAME'' ''pgsched-api'',
                  RFC_ENTERPRISE_ID = b,
                  ROTATE_UTC = (getenv_default env ''LOG_ROTATE_UTC'' ''1'' = ''1''),
                  GZIP_AFTER_DAYS = c,
                  KEEP_DAYS = d,
                  PUBLIC_KEY_B64_PATH =
                    getenv_default env ''PUBLIC_KEY_B64_PATH'' ''./public_key.base64'',
                  PRIVATE_KEY_B64_PATH = getenv env ''APP_PRIVATE_KEY_B64_PATH''\<rparr>,
               cfg_slot = None,
               heap = [],
               pools = 0,
               env_reads =
                 [''TRUST_PROXY'', ''MAX_LOG_BYTES'', ''REDACT_KEYS'', ''LOG_DIR'',
                  ''APP_NAME'', ''RFC_ENTERPRISE_ID'', ''LOG_ROTATE_UTC'',
                  ''GZIP_AFTER_DAYS'', ''KEEP_DAYS'', ''PUBLIC_KEY_B64_PATH'',
                  ''APP_PRIVATE_KEY_B64_PATH'']\<rparr>"
    using assms unfolding import_module_def
    by (simp split: option.splits) blast
  show "TRUST_PROXY (globals w) = (getenv_default env ''TRUST_PROXY'' ''1'' = ''1'')"
    and "ROTATE_UTC (globals w) = (getenv_default env ''LOG_ROTATE_UTC'' ''1'' = ''1'')"
    and "REDACT_KEYS (globals w) = redact_keys env"
    and "PRIVATE_KEY_B64_PATH (globals w) = getenv env ''APP_PRIVATE_KEY_B64_PATH''"
    and "cfg_slot w = None" and "heap w = []" and "pools w = 0" and "environ w = env"
    by (simp_all add: w)
qed


lemma int_of_digits_defaults:
  "int_of_digits ''4096'' = Some 4096" "int_of_digits ''32473'' = Some 32473"
  "int_of_digits ''7'' = Some 7" "int_of_digits ''200'' = Some 200"
  "int_of_digits ''21600'' = Some 21600"
  by code_simp+

lemma env_ex_lookups:
  "env_ex ''TRUST_PROXY'' = Some ''true''"
  "env_ex ''MAX_LOG_BYTES'' = None"
  "env_ex ''REDACT_KEYS'' = Some ''Token, PASSWORD''"
  "env_ex ''LOG_DIR'' = None"
  "env_ex ''APP_NAME'' = None"
  "env_ex ''RFC_ENTERPRISE_ID'' = None"
  "env_ex ''LOG_ROTATE_UTC'' = None"
  "env_ex ''GZIP_AFTER_DAYS'' = None"
  "env_ex ''KEEP_DAYS'' = None"
  "env_ex ''PUBLIC_KEY_B64_PATH'' = None"
  "env_ex ''APP_PRIVATE_KEY_B64_PATH'' = Some ''~/keys/private_key.base64''"
  "env_ex ''PG_DSN_APP'' = Some ''   ''"
  "env_ex ''CORS_ALLOWED_ORIGINS'' = Some '' a , b ,,c ''"
  "env_ex ''DEFAULT_QUERY_INTERVAL'' = None"
  by (simp_all add: env_ex_def)

lemma redact_keys_ex: "redact_keys env_ex = {''token'', ''password''}"
  by code_simp

lemma import_module_ex: "import_module lib_ex env_ex = Inr world_ex"
  by (simp add: import_module_def lib_ex_def world_ex_def getenv_default_def getenv_def
      env_ex_lookups int_of_digits_defaults redact_keys_ex)

lemma load_config_ex: "load_config lib_ex world_ex = (Inr (), world_loaded_ex)"
proof -
  have "fst (load_config lib_ex world_ex) = Inr ()"
    by (simp add: load_config_def Let_def world_ex_def lib_ex_def getenv_default_def
        env_ex_lookups int_of_digits_defaults)
  then show ?thesis by (simp add: world_loaded_ex_def prod_eq_iff)
qed

lemma world_ex_fresh: "cfg_slot world_ex = None" "heap world_ex = []" "environ world_ex = env_ex"
  by (simp_all add: world_ex_def)

lemma world_loaded_ex_cfg: "cfg_slot world_loaded_ex = Some 0"
  by (simp add: world_loaded_ex_def load_config_def Let_def world_ex_def lib_ex_def
      getenv_default_def env_ex_lookups int_of_digits_defaults)

section \<open>Effects of the calls\<close>

lemma engine_cached:
  "a < length (heap w) \<Longrightarrow> engine_slot (heap w ! a) = Some h \<Longrightarrow> engine lib a w = (Inr h, w)"
  by (simp add: engine_def)

lemma engine_no_dsn:
  "a < length (heap w) \<Longrightarrow> engine_slot (heap w ! a) = None \<Longrightarrow> pg_dsn_app (heap w ! a) = []
   \<Longrightarrow> engine lib a w = (Inl (RuntimeError ''PG_DSN_APP is required''), w)"
  by (simp add: engine_def)

lemma engine_effect:
  "snd (engine lib a w) = w \<or>
   (a < length (heap w) \<and> engine_slot (heap w ! a) = None \<and> pg_dsn_app (heap w ! a) \<noteq> [] \<and>
    engine_error lib (pg_dsn_app (heap w ! a)) = None \<and>
    engine lib a w =
      (Inr (Engine (pools w) (pg_dsn_app (heap w ! a))),
       w\<lparr>pools := Suc (pools w),
         heap := (heap w)[a := (heap w ! a)
                   \<lparr>engine_slot := Some (Engine (pools w) (pg_dsn_app (heap w ! a)))\<rparr>]\<rparr>))"
  by (simp add: engine_def create_engine_def split: option.splits)

lemma engine_returns:
  assumes "engine lib a w = (Inr h, w')"
  shows "a < length (heap w') \<and> engine_slot (heap w' ! a) = Some h"
proof (cases "a < length (heap w)")
  case False
  then show ?thesis using assms by (simp add: engine_def)
next
  case inb: True
  show ?thesis
  proof (cases "engine_slot (heap w ! a)")
    case (Some h')
    then show ?thesis using assms inb by (simp add: engine_def)
  next
    case None
    then show ?thesis using assms inb
      by (auto simp: engine_def create_engine_def split: if_splits option.splits)
  qed
qed

lemma load_config_loaded:
  "cfg_slot w \<noteq> None \<Longrightarrow> load_config lib w = (Inr (), w)"
  by (simp add: load_config_def)

lemma load_config_effect:
  "snd (load_config lib w) = w
   \<or> (cfg_slot w = None \<and>
      snd (load_config lib w) = w\<lparr>env_reads := env_reads w @
          [''PG_DSN_APP'', ''CORS_ALLOWED_ORIGINS'', ''DEFAULT_QUERY_INTERVAL'']\<rparr>)
   \<or> (cfg_slot w = None \<and> (\<exists>c.
      snd (load_config lib w) = w\<lparr>env_reads := env_reads w @
          [''PG_DSN_APP'', ''CORS_ALLOWED_ORIGINS'', ''DEFAULT_QUERY_INTERVAL''],
          heap := heap w @ [c], cfg_slot := Some (length (heap w))\<rparr>))"
proof (cases "cfg_slot w")
  case (Some a)
  then show ?thesis by (simp add: load_config_def)
next
  case None
  show ?thesis
  proof (cases "int_of_str lib
                  (getenv_default (environ w) ''DEFAULT_QUERY_INTERVAL'' ''21600'')")
    case nope: None
    then show ?thesis using None by (simp add: load_config_def Let_def)
  next
    case (Some n)
    then have "snd (load_config lib w) = w\<lparr>env_reads := env_reads w @
          [''PG_DSN_APP'', ''CORS_ALLOWED_ORIGINS'', ''DEFAULT_QUERY_INTERVAL''],
          heap := heap w @
            [\<lparr>pg_dsn_app = py_strip (getenv_default (environ w) ''PG_DSN_APP'' ''''),
              cors_allowed_origins =
                [py_strip x.
                   x \<leftarrow> py_split (getenv_default (environ w) ''CORS_ALLOWED_ORIGINS'' ''*'')
                        CHR '','',
                   py_strip x \<noteq> []],
              default_query_interval = n, engine_slot = None\<rparr>],
          cfg_slot := Some (length (heap w))\<rparr>"
      using None by (simp add: load_config_def Let_def)
    then show ?thesis using None by blast
  qed
qed

lemma load_config_fresh:
  assumes "cfg_slot w = None" and "load_config lib w = (Inr u, w')"
  shows "\<exists>n. w' = w\<lparr>env_reads := env_reads w @
                  [''PG_DSN_APP'', ''CORS_ALLOWED_ORIGINS'', ''DEFAULT_QUERY_INTERVAL''],
                heap := heap w @
                  [\<lparr>pg_dsn_app = py_strip (getenv_default (environ w) ''PG_DSN_APP'' ''''),
                    cors_allowed_origins =
                      [py_strip x.
                         x \<leftarrow> py_split (getenv_default (environ w) ''CORS_ALLOWED_ORIGINS'' ''*'')
                              CHR '','',
                         py_strip x \<noteq> []],
                    default_query_interval = n, engine_slot = None\<rparr>],
                cfg_slot := Some (length (heap w))\<rparr>"
  using assms by (auto simp: load_config_def Let_def split: option.splits)

lemma cfg_effect: "snd (cfg lib w) = snd (load_config lib w)"
  by (simp add: cfg_def load_config_def Let_def split: option.splits prod.splits sum.splits)

lemma cfg_loaded: "cfg_slot w = Some a \<Longrightarrow> cfg lib w = (Inr (Some a), w)"
  by (simp add: cfg_def)

lemma load_config_object:
  assumes "b < length (heap w)"
  shows "b < length (heap (snd (load_config lib w))) \<and>
         heap (snd (load_config lib w)) ! b = heap w ! b"
  using load_config_effect [of lib w] assms by (auto simp: nth_append)

lemma engine_object:
  assumes "b < length (heap w)"
  shows "b < length (heap (snd (engine lib a w))) \<and>
         pg_dsn_app (heap (snd (engine lib a w)) ! b) = pg_dsn_app (heap w ! b) \<and>
         (engine_slot (heap w ! b) = Some h \<longrightarrow>
            engine_slot (heap (snd (engine lib a w)) ! b) = Some h) \<and>
         (engine_slot (heap w ! b) = None \<and> pg_dsn_app (heap w ! b) = [] \<longrightarrow>
            engine_slot (heap (snd (engine lib a w)) ! b) = None)"
proof -
  consider "snd (engine lib a w) = w"
    | "a < length (heap w)" "engine_slot (heap w ! a) = None" "pg_dsn_app (heap w ! a) \<noteq> []"
      "snd (engine lib a w) =
         w\<lparr>pools := Suc (pools w),
           heap := (heap w)[a := (heap w ! a)
                     \<lparr>engine_slot := Some (Engine (pools w) (pg_dsn_app (heap w ! a)))\<rparr>]\<rparr>"
    using engine_effect [of lib a w] by auto
  then show ?thesis
  proof cases
    case 1
    then show ?thesis using assms by simp
  next
    case 2
    then show ?thesis using assms by (cases "a = b") simp_all
  qed
qed

lemma step_object:
  assumes "b < length (heap w)"
  shows "b < length (heap (step lib c w)) \<and>
         pg_dsn_app (heap (step lib c w) ! b) = pg_dsn_app (heap w ! b) \<and>
         (engine_slot (heap w ! b) = Some h \<longrightarrow>
            engine_slot (heap (step lib c w) ! b) = Some h) \<and>
         (engine_slot (heap w ! b) = None \<and> pg_dsn_app (heap w ! b) = [] \<longrightarrow>
            engine_slot (heap (step lib c w) ! b) = None)"
proof (cases c)
  case Load_config
  then show ?thesis using load_config_object [OF assms, of lib] by simp
next
  case Cfg
  then show ?thesis using load_config_object [OF assms, of lib] by (simp add: cfg_effect)
next
  case (Engine_of a)
  then show ?thesis using engine_object [OF assms, of lib a h] by simp
next
  case (Private_key_path_of a)
  then show ?thesis using assms by simp
next
  case (New_Config pg cors n)
  then show ?thesis using assms by (simp add: nth_append)
next
  case (Putenv k v)
  then show ?thesis using assms by simp
next
  case (Unsetenv k)
  then show ?thesis using assms by simp
qed

lemma run_object:
  assumes "b < length (heap w)"
  shows "b < length (heap (run lib cs w)) \<and>
         pg_dsn_app (heap (run lib cs w) ! b) = pg_dsn_app (heap w ! b) \<and>
         (engine_slot (heap w ! b) = Some h \<longrightarrow>
            engine_slot (heap (run lib cs w) ! b) = Some h) \<and>
         (engine_slot (heap w ! b) = None \<and> pg_dsn_app (heap w ! b) = [] \<longrightarrow>
            engine_slot (heap (run lib cs w) ! b) = None)"
  using assms
proof (induction cs arbitrary: w)
  case Nil
  then show ?case by simp
next
  case (Cons c cs)
  from step_object [OF Cons.prems, of lib c h]
  have s: "b < length (heap (step lib c w))"
    "pg_dsn_app (heap (step lib c w) ! b) = pg_dsn_app (heap w ! b)"
    "engine_slot (heap w ! b) = Some h \<longrightarrow> engine_slot (heap (step lib c w) ! b) = Some h"
    "engine_slot (heap w ! b) = None \<and> pg_dsn_app (heap w ! b) = [] \<longrightarrow>
       engine_slot (heap (step lib c w) ! b) = None"
    by blast+
  from Cons.IH [OF s(1)] s show ?case by simp
qed

lemma engine_frame:
  "globals (snd (engine lib a w)) = globals w \<and> cfg_slot (snd (engine lib a w)) = cfg_slot w \<and>
   env_reads (snd (engine lib a w)) = env_reads w \<and> environ (snd (engine lib a w)) = environ w"
  using engine_effect [of lib a w] by auto



lemma step_loaded:
  assumes "cfg_slot w = Some a"
  shows "cfg_slot (step lib c w) = Some a \<and> env_reads (step lib c w) = env_reads w"
proof (cases c)
  case Load_config
  then show ?thesis using assms by (simp add: load_config_loaded)
next
  case Cfg
  then show ?thesis using assms by (simp add: cfg_loaded)
next
  case (Engine_of b)
  then show ?thesis using assms engine_frame [of lib b w] by simp
qed (use assms in simp_all)

lemma run_loaded:
  "cfg_slot w = Some a \<Longrightarrow>
   cfg_slot (run lib cs w) = Some a \<and> env_reads (run lib cs w) = env_reads w"
proof (induction cs arbitrary: w)
  case Nil
  then show ?case by simp
next
  case (Cons c cs)
  from step_loaded [OF Cons.prems, of lib c] Cons.IH [of "step lib c w"]
  show ?case by simp
qed

lemma py_strip_spec:
  "\<exists>l r. s = l @ py_strip s @ r \<and> list_all py_isspace l \<and> list_all py_isspace r \<and>
         (py_strip s = [] \<or>
          \<not> py_isspace (hd (py_strip s)) \<and> \<not> py_isspace (last (py_strip s)))"
proof -
  let ?l = "takeWhile py_isspace s"
  let ?r = "rev (takeWhile py_isspace (rev (dropWhile py_isspace s)))"
  have "s = ?l @ py_strip s @ ?r" by (rule py_strip_decomp)
  moreover have "list_all py_isspace ?l" "list_all py_isspace ?r"
    by (auto simp: list_all_iff dest: set_takeWhileD)
  moreover have "py_strip s = [] \<or>
      \<not> py_isspace (hd (py_strip s)) \<and> \<not> py_isspace (last (py_strip s))"
    using py_strip_hd [of s] py_strip_last [of s] by blast
  ultimately show ?thesis by blast
qed

lemma py_strip_three_spaces: "py_strip ''   '' = []"
  by (simp add: py_strip_def py_isspace_def)

lemma cors_ex:
  "[py_strip x. x \<leftarrow> py_split '' a , b ,,c '' CHR '','', py_strip x \<noteq> []] = [''a'', ''b'', ''c'']"
  by (simp add: py_split_def py_strip_def py_isspace_def)

lemma world_loaded_ex_heap:
  "heap world_loaded_ex =
     [\<lparr>pg_dsn_app = [], cors_allowed_origins = [''a'', ''b'', ''c''],
       default_query_interval = 21600, engine_slot = None\<rparr>]"
  by (simp add: world_loaded_ex_def load_config_def Let_def world_ex_def lib_ex_def
      getenv_default_def env_ex_lookups int_of_digits_defaults py_strip_three_spaces cors_ex
      del: concat.simps map_eq_conv)

lemma engine_db_ex:
  "engine lib_ex 0 (run lib_ex [New_Config ''postgresql://db/app'' [''*''] 21600] world_ex)
   = (Inr (Engine 0 ''postgresql://db/app''),
      run lib_ex [New_Config ''postgresql://db/app'' [''*''] 21600, Engine_of 0] world_ex)"
proof -
  have "fst (engine lib_ex 0
          (run lib_ex [New_Config ''postgresql://db/app'' [''*''] 21600] world_ex))
        = Inr (Engine 0 ''postgresql://db/app'')"
    by (simp add: engine_def create_engine_def lib_ex_def world_ex_def)
  then show ?thesis by (simp add: prod_eq_iff)
qed

lemma comprehension_filter_map:
  "[f x. x \<leftarrow> xs, f x \<noteq> []] = filter (\<lambda>p. p \<noteq> []) (map f xs)"
  by (induction xs) auto

lemma py_split_spec:
  "py_split s sep \<noteq> [] \<and> py_join sep (py_split s sep) = s \<and>
   (\<forall>p\<in>set (py_split s sep). sep \<notin> set p)"
  using py_split_iff [of s sep "py_split s sep"] by simp

lemma load_config_fresh_object:
  assumes "cfg_slot w = None" and "load_config lib w = (Inr (), w')"
  shows "cfg_slot w' = Some (length (heap w))"
    and "length (heap w) < length (heap w')"
    and "pg_dsn_app (heap w' ! length (heap w))
           = py_strip (getenv_default (environ w) ''PG_DSN_APP'' '''')"
    and "cors_allowed_origins (heap w' ! length (heap w))
           = [py_strip x.
                x \<leftarrow> py_split (getenv_default (environ w) ''CORS_ALLOWED_ORIGINS'' ''*'')
                     CHR '','',
                py_strip x \<noteq> []]"
    and "engine_slot (heap w' ! length (heap w)) = None"
    and "env_reads w' = env_reads w @
           [''PG_DSN_APP'', ''CORS_ALLOWED_ORIGINS'', ''DEFAULT_QUERY_INTERVAL'']"
proof -
  from load_config_fresh [OF assms] obtain n where
    w': "w' = w\<lparr>env_reads := env_reads w @
                  [''PG_DSN_APP'', ''CORS_ALLOWED_ORIGINS'', ''DEFAULT_QUERY_INTERVAL''],
                heap := heap w @
                  [\<lparr>pg_dsn_app = py_strip (getenv_default (environ w) ''PG_DSN_APP'' ''''),
                    cors_allowed_origins =
                      [py_strip x.
                         x \<leftarrow> py_split (getenv_default (environ w) ''CORS_ALLOWED_ORIGINS'' ''*'')
                              CHR '','',
                         py_strip x \<noteq> []],
                    default_query_interval = n, engine_slot = None\<rparr>],
                cfg_slot := Some (length (heap w))\<rparr>"
    by blast
  show "cfg_slot w' = Some (length (heap w))"
    and "length (heap w) < length (heap w')"
    and "pg_dsn_app (heap w' ! length (heap w))
           = py_strip (getenv_default (environ w) ''PG_DSN_APP'' '''')"
    and "cors_allowed_origins (heap w' ! length (heap w))
           = [py_strip x.
                x \<leftarrow> py_split (getenv_default (environ w) ''CORS_ALLOWED_ORIGINS'' ''*'')
                     CHR '','',
                py_strip x \<noteq> []]"
    and "engine_slot (heap w' ! length (heap w)) = None"
    and "env_reads w' = env_reads w @
           [''PG_DSN_APP'', ''CORS_ALLOWED_ORIGINS'', ''DEFAULT_QUERY_INTERVAL'']"
    by (simp_all add: w' del: concat.simps)
qed

lemma cors_dup_ex:
  "[py_strip x. x \<leftarrow> py_split ''a,b,a'' CHR '','', py_strip x \<noteq> []] = [''a'', ''b'', ''a'']"
  by (simp add: py_split_def py_strip_def py_isspace_def)

lemma lower_char_idem: "lower_char (lower_char c) = lower_char c"
proof -
  have lt: "(of_char c :: nat) < 256" by simp
  show ?thesis
  proof (cases "(65 \<le> (of_char c :: nat) \<and> (of_char c :: nat) \<le> 90) \<or>
                (192 \<le> (of_char c :: nat) \<and> (of_char c :: nat) \<le> 222 \<and>
                 (of_char c :: nat) \<noteq> 215)")
    case False
    then have "lower_char c = c" by (auto simp: lower_char_def Let_def)
    then show ?thesis by simp
  next
    case True
    then have l: "lower_char c = char_of ((of_char c :: nat) + 32)"
      by (simp add: lower_char_def Let_def)
    have "(of_char (char_of ((of_char c :: nat) + 32)) :: nat) = of_char c + 32"
    proof -
      from True have "(of_char c :: nat) + 32 < 256" by arith
      then show ?thesis by (simp add: of_char_of)
    qed
    then show ?thesis using True unfolding l
      by (auto simp add: lower_char_def Let_def)
  qed
qed

lemma py_lower_idem: "py_lower (py_lower s) = py_lower s"
  by (simp add: py_lower_def lower_char_idem)

lemma redact_keys_value_ex:
  "set [py_lower (py_strip k). k \<leftarrow> py_split ''Token, PASSWORD'' CHR '','', py_strip k \<noteq> []]
   = {''token'', ''password''}"
  by code_simp

lemma redact_keys_dup_ex:
  "set [py_lower (py_strip k). k \<leftarrow> py_split ''a, A ,,a'' CHR '','', py_strip k \<noteq> []]
   = {''a''}"
  by code_simp

lemma set_comprehension:
  "set [f (g k). k \<leftarrow> ps, g k \<noteq> []] = {f (g p) | p. p \<in> set ps \<and> g p \<noteq> []}"
  by (induction ps) auto







section \<open>Boolean flags\<close>

text \<open>
  Claim C6. Once the module is imported, each of the two boolean constants
  (\<open>TRUST_PROXY\<close>, and \<open>ROTATE_UTC\<close> read from \<open>LOG_ROTATE_UTC\<close>) is true exactly when
  the value of its variable is the string \<open>1\<close>; an unset variable counts as its default
  \<open>1\<close> and gives true; \<open>0\<close>, \<open>yes\<close> and \<open>true\<close> give false.
\<close>

theorem boolean_flags_parse:
  assumes "import_module lib env = Inr w"
  shows "(\<forall>v. env ''TRUST_PROXY'' = Some v \<longrightarrow> (TRUST_PROXY (globals w) \<longleftrightarrow> v = ''1''))
       \<and> (env ''TRUST_PROXY'' = None \<longrightarrow> TRUST_PROXY (globals w))
       \<and> (\<forall>v. env ''LOG_ROTATE_UTC'' = Some v \<longrightarrow> (ROTATE_UTC (globals w) \<longleftrightarrow> v = ''1''))
       \<and> (env ''LOG_ROTATE_UTC'' = None \<longrightarrow> ROTATE_UTC (globals w))
       \<and> (\<forall>v\<in>{''0'', ''yes'', ''true''}.
             (env ''TRUST_PROXY'' = Some v \<longrightarrow> \<not> TRUST_PROXY (globals w))
           \<and> (env ''LOG_ROTATE_UTC'' = Some v \<longrightarrow> \<not> ROTATE_UTC (globals w)))"
  by (simp add: import_module_fields [OF assms] getenv_default_def)

theorem boolean_flags_parse_witness:
  "import_module lib_ex env_ex = Inr world_ex
   \<and> env_ex ''TRUST_PROXY'' = Some ''true'' \<and> \<not> TRUST_PROXY (globals world_ex)
   \<and> env_ex ''LOG_ROTATE_UTC'' = None \<and> ROTATE_UTC (globals world_ex)"
  using boolean_flags_parse [OF import_module_ex] import_module_ex
  by (simp add: env_ex_lookups)

section \<open>The singleton\<close>

text \<open>
  Claim C2. Once \<open>_cfg\<close> holds a reference \<open>a\<close>, \<open>load_config()\<close> returns without changing
  anything: the state after the call is the state before it, so the log of environment
  reads has not grown and \<open>_cfg\<close> has not been replaced. Any number of calls in a row
  leave the state as it is, and \<open>cfg()\<close> returns the same reference \<open>a\<close>. The same holds
  after any later sequence of calls of the module, also when the environment was
  changed in between.
\<close>

theorem load_config_idempotent:
  assumes "cfg_slot w = Some a"
  shows "load_config lib w = (Inr (), w)
       \<and> cfg lib w = (Inr (Some a), w)
       \<and> run lib (replicate n Load_config) w = w
       \<and> cfg_slot (run lib cs w) = Some a
       \<and> env_reads (run lib cs w) = env_reads w
       \<and> load_config lib (run lib cs w) = (Inr (), run lib cs w)
       \<and> cfg lib (run lib cs w) = (Inr (Some a), run lib cs w)"
proof -
  have 1: "load_config lib w = (Inr (), w)"
    using assms by (simp add: load_config_loaded)
  have 2: "cfg lib w = (Inr (Some a), w)"
    using assms by (rule cfg_loaded)
  have 3: "run lib (replicate n Load_config) w = w"
    by (induction n) (simp_all add: 1)
  have 4: "cfg_slot (run lib cs w) = Some a" "env_reads (run lib cs w) = env_reads w"
    using run_loaded [OF assms, of lib cs] by simp_all
  have 5: "load_config lib (run lib cs w) = (Inr (), run lib cs w)"
    using 4(1) by (simp add: load_config_loaded)
  have 6: "cfg lib (run lib cs w) = (Inr (Some a), run lib cs w)"
    using 4(1) by (rule cfg_loaded)
  show ?thesis using 1 2 3 4 5 6 by simp
qed

theorem load_config_idempotent_witness:
  "cfg_slot world_loaded_ex = Some 0
   \<and> load_config lib_ex world_loaded_ex = (Inr (), world_loaded_ex)
   \<and> cfg lib_ex world_loaded_ex = (Inr (Some 0), world_loaded_ex)
   \<and> cfg lib_ex (run lib_ex [Putenv ''PG_DSN_APP'' ''postgresql://db/app'', Load_config, Cfg]
        world_loaded_ex)
     = (Inr (Some 0),
        run lib_ex [Putenv ''PG_DSN_APP'' ''postgresql://db/app'', Load_config, Cfg]
          world_loaded_ex)"
  using load_config_idempotent [OF world_loaded_ex_cfg, of lib_ex 0
      "[Putenv ''PG_DSN_APP'' ''postgresql://db/app'', Load_config, Cfg]"]
    world_loaded_ex_cfg
  by simp

section \<open>The engine\<close>

text \<open>
  Claim C3, as the code has it. For every \<open>Config\<close> object whose \<open>pg_dsn_app\<close> is the
  empty string and whose \<open>_engine\<close> is unset, \<open>engine()\<close> raises \<open>RuntimeError\<close> with the
  message \<open>PG_DSN_APP is required\<close>; the call changes nothing, so \<open>_engine\<close> is still
  unset afterwards and no pool was constructed.
\<close>

theorem engine_without_dsn_fails:
  assumes "a < length (heap w)"
    and "pg_dsn_app (heap w ! a) = []"
    and "engine_slot (heap w ! a) = None"
  shows "engine lib a w = (Inl (RuntimeError ''PG_DSN_APP is required''), w)
       \<and> engine_slot (heap (snd (engine lib a w)) ! a) = None
       \<and> pools (snd (engine lib a w)) = pools w"
  using assms by (simp add: engine_def)

theorem engine_without_dsn_fails_witness:
  "0 < length (heap world_loaded_ex)
   \<and> pg_dsn_app (heap world_loaded_ex ! 0) = []
   \<and> engine_slot (heap world_loaded_ex ! 0) = None
   \<and> engine lib_ex 0 world_loaded_ex
       = (Inl (RuntimeError ''PG_DSN_APP is required''), world_loaded_ex)"
  using engine_without_dsn_fails [of 0 world_loaded_ex lib_ex]
  by (simp add: world_loaded_ex_heap)

text \<open>
  The message of that error is not \<open>database DSN is required\<close>: in the example
  process the object made by \<open>load_config()\<close> has an empty DSN and no engine, and
  \<open>engine()\<close> raises \<open>RuntimeError\<close> with \<open>PG_DSN_APP is required\<close>.
\<close>

theorem engine_without_dsn_message_counterexample:
  "pg_dsn_app (heap world_loaded_ex ! 0) = []
   \<and> engine_slot (heap world_loaded_ex ! 0) = None
   \<and> fst (engine lib_ex 0 world_loaded_ex) = Inl (RuntimeError ''PG_DSN_APP is required'')
   \<and> fst (engine lib_ex 0 world_loaded_ex) \<noteq> Inl (RuntimeError ''database DSN is required'')"
  by (simp add: engine_def world_loaded_ex_heap)

text \<open>
  Claim C4. When \<open>engine()\<close> has returned a handle \<open>h\<close> for an object, the next call on
  that object returns \<open>h\<close> again and leaves the state as it is, so no pool is
  constructed; and so does every call after any further sequence of calls of the
  module.
\<close>

theorem engine_cached_handle:
  assumes "engine lib a w = (Inr h, w')"
  shows "engine lib a w' = (Inr h, w')
       \<and> engine lib a (run lib cs w') = (Inr h, run lib cs w')
       \<and> pools (snd (engine lib a (run lib cs w'))) = pools (run lib cs w')"
proof -
  from engine_returns [OF assms]
  have a: "a < length (heap w')" and h: "engine_slot (heap w' ! a) = Some h"
    by simp_all
  have 1: "engine lib a w' = (Inr h, w')"
    using a h by (rule engine_cached)
  from run_object [OF a, of lib cs h] h
  have "a < length (heap (run lib cs w'))"
    and "engine_slot (heap (run lib cs w') ! a) = Some h"
    by simp_all
  then have 2: "engine lib a (run lib cs w') = (Inr h, run lib cs w')"
    by (rule engine_cached)
  show ?thesis using 1 2 by simp
qed

theorem engine_cached_handle_witness:
  "engine lib_ex 0 (run lib_ex [New_Config ''postgresql://db/app'' [''*''] 21600] world_ex)
     = (Inr (Engine 0 ''postgresql://db/app''),
        run lib_ex [New_Config ''postgresql://db/app'' [''*''] 21600, Engine_of 0] world_ex)
   \<and> engine lib_ex 0
       (run lib_ex [New_Config ''postgresql://db/app'' [''*''] 21600, Engine_of 0] world_ex)
     = (Inr (Engine 0 ''postgresql://db/app''),
        run lib_ex [New_Config ''postgresql://db/app'' [''*''] 21600, Engine_of 0] world_ex)"
  using engine_cached_handle [OF engine_db_ex, of "[]"] engine_db_ex
  by simp

section \<open>The database DSN\<close>

text \<open>
  Claim C10. The first \<open>load_config()\<close> that returns stores as \<open>pg_dsn_app\<close> the value of
  \<open>PG_DSN_APP\<close> (the empty string when unset) without its leading and trailing white
  space: the value is \<open>l @ pg_dsn_app @ r\<close> with \<open>l\<close> and \<open>r\<close> white space only, and the
  stored string is empty or begins and ends with a character that is not white space.
  When the value is white space only, the stored DSN is empty, and \<open>engine()\<close> on that
  object, after any further sequence of calls of the module, raises \<open>RuntimeError\<close> and
  changes nothing, so no pool is constructed.
\<close>

theorem pg_dsn_app_stripped:
  assumes "cfg_slot w = None" and "load_config lib w = (Inr (), w')"
  shows "\<exists>a l r. cfg_slot w' = Some a \<and> a < length (heap w')
     \<and> getenv_default (environ w) ''PG_DSN_APP'' '''' = l @ pg_dsn_app (heap w' ! a) @ r
     \<and> list_all py_isspace l \<and> list_all py_isspace r
     \<and> (pg_dsn_app (heap w' ! a) = [] \<or>
        \<not> py_isspace (hd (pg_dsn_app (heap w' ! a))) \<and>
        \<not> py_isspace (last (pg_dsn_app (heap w' ! a))))
     \<and> (list_all py_isspace (getenv_default (environ w) ''PG_DSN_APP'' '''') \<longrightarrow>
          pg_dsn_app (heap w' ! a) = [] \<and>
          engine lib a (run lib cs w')
            = (Inl (RuntimeError ''PG_DSN_APP is required''), run lib cs w'))"
proof -
  let ?a = "length (heap w)"
  let ?v = "getenv_default (environ w) ''PG_DSN_APP'' ''''"
  note obj = load_config_fresh_object [OF assms]
  from py_strip_spec [of ?v] obtain l r where
    lr: "?v = l @ py_strip ?v @ r" "list_all py_isspace l" "list_all py_isspace r"
      "py_strip ?v = [] \<or> \<not> py_isspace (hd (py_strip ?v)) \<and> \<not> py_isspace (last (py_strip ?v))"
    by blast
  have blank: "engine lib ?a (run lib cs w')
                 = (Inl (RuntimeError ''PG_DSN_APP is required''), run lib cs w')"
    if "list_all py_isspace ?v"
  proof -
    from that have e: "pg_dsn_app (heap w' ! ?a) = []"
      by (simp add: obj(3) py_strip_empty_iff)
    from run_object [OF obj(2), of lib cs] e obj(5)
    have "?a < length (heap (run lib cs w'))"
      and "engine_slot (heap (run lib cs w') ! ?a) = None"
      and "pg_dsn_app (heap (run lib cs w') ! ?a) = []"
      by simp_all
    then show ?thesis by (rule engine_no_dsn)
  qed
  have "cfg_slot w' = Some ?a \<and> ?a < length (heap w')
     \<and> ?v = l @ pg_dsn_app (heap w' ! ?a) @ r
     \<and> list_all py_isspace l \<and> list_all py_isspace r
     \<and> (pg_dsn_app (heap w' ! ?a) = [] \<or>
        \<not> py_isspace (hd (pg_dsn_app (heap w' ! ?a))) \<and>
        \<not> py_isspace (last (pg_dsn_app (heap w' ! ?a))))
     \<and> (list_all py_isspace ?v \<longrightarrow>
          pg_dsn_app (heap w' ! ?a) = [] \<and>
          engine lib ?a (run lib cs w')
            = (Inl (RuntimeError ''PG_DSN_APP is required''), run lib cs w'))"
    using obj(1,2) lr blank by (simp add: obj(3) py_strip_empty_iff)
  then show ?thesis by blast
qed

theorem pg_dsn_app_stripped_witness:
  "cfg_slot world_ex = None
   \<and> load_config lib_ex world_ex = (Inr (), world_loaded_ex)
   \<and> getenv_default (environ world_ex) ''PG_DSN_APP'' '''' = ''   ''
   \<and> cfg_slot world_loaded_ex = Some 0
   \<and> pg_dsn_app (heap world_loaded_ex ! 0) = []
   \<and> engine lib_ex 0 (run lib_ex [Cfg, Engine_of 0] world_loaded_ex)
       = (Inl (RuntimeError ''PG_DSN_APP is required''),
          run lib_ex [Cfg, Engine_of 0] world_loaded_ex)"
proof -
  have v: "getenv_default (environ world_ex) ''PG_DSN_APP'' '''' = ''   ''"
    by (simp add: getenv_default_def world_ex_fresh env_ex_lookups)
  have sp: "list_all py_isspace ''   ''"
    by (simp add: py_isspace_def)
  from pg_dsn_app_stripped [OF world_ex_fresh(1) load_config_ex, of "[Cfg, Engine_of 0]"]
  obtain a where "cfg_slot world_loaded_ex = Some a"
    and "list_all py_isspace (getenv_default (environ world_ex) ''PG_DSN_APP'' '''') \<longrightarrow>
          pg_dsn_app (heap world_loaded_ex ! a) = [] \<and>
          engine lib_ex a (run lib_ex [Cfg, Engine_of 0] world_loaded_ex)
            = (Inl (RuntimeError ''PG_DSN_APP is required''),
               run lib_ex [Cfg, Engine_of 0] world_loaded_ex)"
    by blast
  then have "pg_dsn_app (heap world_loaded_ex ! 0) = [] \<and>
          engine lib_ex 0 (run lib_ex [Cfg, Engine_of 0] world_loaded_ex)
            = (Inl (RuntimeError ''PG_DSN_APP is required''),
               run lib_ex [Cfg, Engine_of 0] world_loaded_ex)"
    using v sp world_loaded_ex_cfg by simp
  then show ?thesis
    using v world_ex_fresh(1) load_config_ex world_loaded_ex_cfg by blast
qed

section \<open>Comma-separated lists\<close>

text \<open>
  Claim C7. The first \<open>load_config()\<close> that returns stores as \<open>cors_allowed_origins\<close> the
  list obtained from the value of \<open>CORS_ALLOWED_ORIGINS\<close> (\<open>*\<close> when unset) in this way.
  The value is cut at its commas into the pieces \<open>ps\<close>: joining \<open>ps\<close> with commas gives
  the value back and no piece holds a comma. Each piece is stripped of the white space
  at its two ends, the pieces that are empty after that are dropped, and the rest is
  kept in its order, repeated entries included. The value \<open> a , b ,,c \<close> gives
  \<open>[a, b, c]\<close>, the value \<open>a,b,a\<close> gives \<open>[a, b, a]\<close>, and an unset variable gives \<open>[*]\<close>.
\<close>

theorem cors_allowed_origins_parse:
  assumes "cfg_slot w = None" and "load_config lib w = (Inr (), w')"
  shows "\<exists>a ps. cfg_slot w' = Some a \<and> a < length (heap w')
     \<and> ps \<noteq> []
     \<and> py_join CHR '','' ps = getenv_default (environ w) ''CORS_ALLOWED_ORIGINS'' ''*''
     \<and> (\<forall>p\<in>set ps. CHR '','' \<notin> set p)
     \<and> cors_allowed_origins (heap w' ! a) = filter (\<lambda>p. p \<noteq> []) (map py_strip ps)
     \<and> (\<forall>p\<in>set ps. \<exists>l r. p = l @ py_strip p @ r
            \<and> list_all py_isspace l \<and> list_all py_isspace r
            \<and> (py_strip p = [] \<or>
               \<not> py_isspace (hd (py_strip p)) \<and> \<not> py_isspace (last (py_strip p))))
     \<and> (environ w ''CORS_ALLOWED_ORIGINS'' = Some '' a , b ,,c '' \<longrightarrow>
          cors_allowed_origins (heap w' ! a) = [''a'', ''b'', ''c''])
     \<and> (environ w ''CORS_ALLOWED_ORIGINS'' = Some ''a,b,a'' \<longrightarrow>
          cors_allowed_origins (heap w' ! a) = [''a'', ''b'', ''a''])
     \<and> (environ w ''CORS_ALLOWED_ORIGINS'' = None \<longrightarrow>
          cors_allowed_origins (heap w' ! a) = [''*''])"
proof -
  let ?a = "length (heap w)"
  let ?v = "getenv_default (environ w) ''CORS_ALLOWED_ORIGINS'' ''*''"
  let ?ps = "py_split ?v CHR '',''"
  note obj = load_config_fresh_object [OF assms]
  have cors: "cors_allowed_origins (heap w' ! ?a) = filter (\<lambda>p. p \<noteq> []) (map py_strip ?ps)"
    by (simp only: obj(4) comprehension_filter_map)
  have ex1: "cors_allowed_origins (heap w' ! ?a) = [''a'', ''b'', ''c'']"
    if "environ w ''CORS_ALLOWED_ORIGINS'' = Some '' a , b ,,c ''"
  proof -
    from that have "?v = '' a , b ,,c ''" by (simp add: getenv_default_def)
    then show ?thesis by (simp only: obj(4) cors_ex)
  qed
  have ex2: "cors_allowed_origins (heap w' ! ?a) = [''a'', ''b'', ''a'']"
    if "environ w ''CORS_ALLOWED_ORIGINS'' = Some ''a,b,a''"
  proof -
    from that have "?v = ''a,b,a''" by (simp add: getenv_default_def)
    then show ?thesis by (simp only: obj(4) cors_dup_ex)
  qed
  have ex3: "cors_allowed_origins (heap w' ! ?a) = [''*'']"
    if "environ w ''CORS_ALLOWED_ORIGINS'' = None"
  proof -
    from that have "?v = ''*''" by (simp add: getenv_default_def)
    moreover have "[py_strip x. x \<leftarrow> py_split ''*'' CHR '','', py_strip x \<noteq> []] = [''*'']"
      by (simp add: py_split_def py_strip_def py_isspace_def)
    ultimately show ?thesis by (simp only: obj(4))
  qed
  have strip: "\<forall>p\<in>set ?ps. \<exists>l r. p = l @ py_strip p @ r
            \<and> list_all py_isspace l \<and> list_all py_isspace r
            \<and> (py_strip p = [] \<or>
               \<not> py_isspace (hd (py_strip p)) \<and> \<not> py_isspace (last (py_strip p)))"
    using py_strip_spec by blast
  from py_split_spec [of ?v "CHR '',''"]
  have sp1: "?ps \<noteq> []" and sp2: "py_join CHR '','' ?ps = ?v"
    and sp3: "\<forall>p\<in>set ?ps. CHR '','' \<notin> set p"
    by blast+
  show ?thesis
  proof (rule exI [of _ ?a], rule exI [of _ ?ps], intro conjI)
    show "cfg_slot w' = Some ?a" by (rule obj(1))
    show "?a < length (heap w')" by (rule obj(2))
    show "?ps \<noteq> []" by (rule sp1)
    show "py_join CHR '','' ?ps = ?v" by (rule sp2)
    show "\<forall>p\<in>set ?ps. CHR '','' \<notin> set p" by (rule sp3)
    show "cors_allowed_origins (heap w' ! ?a) = filter (\<lambda>p. p \<noteq> []) (map py_strip ?ps)"
      by (rule cors)
    show "\<forall>p\<in>set ?ps. \<exists>l r. p = l @ py_strip p @ r
            \<and> list_all py_isspace l \<and> list_all py_isspace r
            \<and> (py_strip p = [] \<or>
               \<not> py_isspace (hd (py_strip p)) \<and> \<not> py_isspace (last (py_strip p)))"
      by (rule strip)
    show "environ w ''CORS_ALLOWED_ORIGINS'' = Some '' a , b ,,c '' \<longrightarrow>
          cors_allowed_origins (heap w' ! ?a) = [''a'', ''b'', ''c'']"
      using ex1 by (rule impI)
    show "environ w ''CORS_ALLOWED_ORIGINS'' = Some ''a,b,a'' \<longrightarrow>
          cors_allowed_origins (heap w' ! ?a) = [''a'', ''b'', ''a'']"
      using ex2 by (rule impI)
    show "environ w ''CORS_ALLOWED_ORIGINS'' = None \<longrightarrow>
          cors_allowed_origins (heap w' ! ?a) = [''*'']"
      using ex3 by (rule impI)
  qed
qed

theorem cors_allowed_origins_parse_witness:
  "cfg_slot world_ex = None
   \<and> load_config lib_ex world_ex = (Inr (), world_loaded_ex)
   \<and> environ world_ex ''CORS_ALLOWED_ORIGINS'' = Some '' a , b ,,c ''
   \<and> cfg_slot world_loaded_ex = Some 0
   \<and> cors_allowed_origins (heap world_loaded_ex ! 0) = [''a'', ''b'', ''c'']"
proof -
  have v: "environ world_ex ''CORS_ALLOWED_ORIGINS'' = Some '' a , b ,,c ''"
    by (simp add: world_ex_fresh env_ex_lookups)
  from cors_allowed_origins_parse [OF world_ex_fresh(1) load_config_ex]
  obtain a where "cfg_slot world_loaded_ex = Some a"
    and "environ world_ex ''CORS_ALLOWED_ORIGINS'' = Some '' a , b ,,c '' \<longrightarrow>
          cors_allowed_origins (heap world_loaded_ex ! a) = [''a'', ''b'', ''c'']"
    by blast
  then have "cors_allowed_origins (heap world_loaded_ex ! 0) = [''a'', ''b'', ''c'']"
    using v world_loaded_ex_cfg by simp
  then show ?thesis
    using v world_ex_fresh(1) load_config_ex world_loaded_ex_cfg by blast
qed

text \<open>
  Claim C8. Once the module is imported, \<open>REDACT_KEYS\<close> is a set: the value of the
  variable (the documented default when unset) is cut at its commas into the pieces
  \<open>ps\<close>, and the set holds, for each piece that is not empty once its white space is
  stripped, the stripped piece in lower case. No element is empty and every element is
  its own lower case. The value \<open>Token, PASSWORD\<close> gives the set of \<open>token\<close> and
  \<open>password\<close>, and \<open>a, A ,,a\<close> gives the set of \<open>a\<close> alone.
\<close>

theorem redact_keys_parse:
  assumes "import_module lib env = Inr w"
  shows "\<exists>ps. ps \<noteq> []
     \<and> py_join CHR '','' ps = getenv_default env ''REDACT_KEYS''
          ''password,new_password,current_password,token,authorization,secret''
     \<and> (\<forall>p\<in>set ps. CHR '','' \<notin> set p)
     \<and> REDACT_KEYS (globals w) = {py_lower (py_strip p) | p. p \<in> set ps \<and> py_strip p \<noteq> []}
     \<and> (\<forall>k\<in>REDACT_KEYS (globals w). k \<noteq> [] \<and> py_lower k = k)
     \<and> (env ''REDACT_KEYS'' = Some ''Token, PASSWORD'' \<longrightarrow>
          REDACT_KEYS (globals w) = {''token'', ''password''})
     \<and> (env ''REDACT_KEYS'' = Some ''a, A ,,a'' \<longrightarrow> REDACT_KEYS (globals w) = {''a''})"
proof -
  let ?v = "getenv_default env ''REDACT_KEYS''
              ''password,new_password,current_password,token,authorization,secret''"
  let ?ps = "py_split ?v CHR '',''"
  have rk: "REDACT_KEYS (globals w) =
              set [py_lower (py_strip k). k \<leftarrow> ?ps, py_strip k \<noteq> []]"
    by (simp only: import_module_fields(3) [OF assms] redact_keys_def)
  have keys: "REDACT_KEYS (globals w)
                = {py_lower (py_strip p) | p. p \<in> set ?ps \<and> py_strip p \<noteq> []}"
    by (simp only: rk set_comprehension)
  have low: "\<forall>k\<in>REDACT_KEYS (globals w). k \<noteq> [] \<and> py_lower k = k"
    unfolding keys by (auto simp: py_lower_idem) (simp add: py_lower_def)
  have ex1: "REDACT_KEYS (globals w) = {''token'', ''password''}"
    if "env ''REDACT_KEYS'' = Some ''Token, PASSWORD''"
  proof -
    from that have "?v = ''Token, PASSWORD''" by (simp add: getenv_default_def)
    then show ?thesis by (simp only: rk redact_keys_value_ex)
  qed
  have ex2: "REDACT_KEYS (globals w) = {''a''}" if "env ''REDACT_KEYS'' = Some ''a, A ,,a''"
  proof -
    from that have "?v = ''a, A ,,a''" by (simp add: getenv_default_def)
    then show ?thesis by (simp only: rk redact_keys_dup_ex)
  qed
  from py_split_spec [of ?v "CHR '',''"]
  have sp1: "?ps \<noteq> []" and sp2: "py_join CHR '','' ?ps = ?v"
    and sp3: "\<forall>p\<in>set ?ps. CHR '','' \<notin> set p"
    by blast+
  show ?thesis
  proof (rule exI [of _ ?ps], intro conjI)
    show "?ps \<noteq> []" by (rule sp1)
    show "py_join CHR '','' ?ps = ?v" by (rule sp2)
    show "\<forall>p\<in>set ?ps. CHR '','' \<notin> set p" by (rule sp3)
    show "REDACT_KEYS (globals w)
            = {py_lower (py_strip p) | p. p \<in> set ?ps \<and> py_strip p \<noteq> []}"
      by (rule keys)
    show "\<forall>k\<in>REDACT_KEYS (globals w). k \<noteq> [] \<and> py_lower k = k" by (rule low)
    show "env ''REDACT_KEYS'' = Some ''Token, PASSWORD'' \<longrightarrow>
          REDACT_KEYS (globals w) = {''token'', ''password''}"
      using ex1 by (rule impI)
    show "env ''REDACT_KEYS'' = Some ''a, A ,,a'' \<longrightarrow> REDACT_KEYS (globals w) = {''a''}"
      using ex2 by (rule impI)
  qed
qed

theorem redact_keys_parse_witness:
  "import_module lib_ex env_ex = Inr world_ex
   \<and> env_ex ''REDACT_KEYS'' = Some ''Token, PASSWORD''
   \<and> REDACT_KEYS (globals world_ex) = {''token'', ''password''}"
proof -
  from redact_keys_parse [OF import_module_ex]
  have "env_ex ''REDACT_KEYS'' = Some ''Token, PASSWORD'' \<longrightarrow>
          REDACT_KEYS (globals world_ex) = {''token'', ''password''}"
    by blast
  then show ?thesis using import_module_ex by (simp add: env_ex_lookups)
qed

section \<open>The private key path\<close>



section \<open>Key files\<close>




end
